theory Spec2Isabelle
  imports Main "HOL-Library.Word"
begin

section \<open>JavaScript strings\<close>

text \<open>
  A JavaScript string is a sequence of 16-bit code units; \<open>includes\<close>, \<open>replace\<close>,
  \<open>slice\<close> and \<open>+\<close> all work on code units. String literals of the source are written
  \<open>u16 ''...''\<close>.
\<close>

type_synonym jschar = "16 word"
type_synonym jsstring = "jschar list"

definition u16 :: "string \<Rightarrow> jsstring" where
  "u16 s = map of_char s"

definition DQUOTE :: jschar where
  "DQUOTE = 0x22"

definition NEWLINE :: jschar where
  "NEWLINE = 0x0A"

definition COLON :: jschar where
  "COLON = 0x3A"

definition HYPHEN :: jschar where
  "HYPHEN = 0x2D"

definition BOM :: jschar where
  "BOM = 0xFEFF"

text \<open>\<open>s.startsWith(d)\<close> and \<open>s.includes(d)\<close>: \<open>d\<close> occurs in \<open>s\<close> as a contiguous block;
  the empty string occurs in every string.\<close>

fun startsWith :: "jsstring \<Rightarrow> jsstring \<Rightarrow> bool" where
  "startsWith s [] = True"
| "startsWith [] (d # ds) = False"
| "startsWith (c # cs) (d # ds) = (c = d \<and> startsWith cs ds)"

fun str_includes :: "jsstring \<Rightarrow> jsstring \<Rightarrow> bool" where
  "str_includes [] d = (d = [])"
| "str_includes (c # cs) d = (startsWith (c # cs) d \<or> str_includes cs d)"

text \<open>\<open>s.replace(/"/g, '""')\<close>: every double quote is doubled.\<close>

fun replace_dquotes :: "jsstring \<Rightarrow> jsstring" where
  "replace_dquotes [] = []"
| "replace_dquotes (c # cs) =
     (if c = DQUOTE then DQUOTE # DQUOTE # replace_dquotes cs else c # replace_dquotes cs)"

text \<open>\<open>s.replace(/:/g, '-')\<close>.\<close>

definition replace_colons :: "jsstring \<Rightarrow> jsstring" where
  "replace_colons s = map (\<lambda>c. if c = COLON then HYPHEN else c) s"

text \<open>\<open>s.replace(/\.csv$/, '')\<close>: the pattern is anchored at the end of the input, so
  the only possible match is a final \<open>.csv\<close>.\<close>

definition endsWith :: "jsstring \<Rightarrow> jsstring \<Rightarrow> bool" where
  "endsWith s d = startsWith (rev s) (rev d)"

definition remove_csv_suffix :: "jsstring \<Rightarrow> jsstring" where
  "remove_csv_suffix s =
     (if endsWith s (u16 ''.csv'') then take (length s - 4) s else s)"

text \<open>\<open>xs.join(sep)\<close> on an array of strings.\<close>

fun join :: "jsstring list \<Rightarrow> jsstring \<Rightarrow> jsstring" where
  "join [] sep = []"
| "join [x] sep = x"
| "join (x # y # ys) sep = x @ sep @ join (y # ys) sep"

section \<open>JavaScript values and records\<close>

text \<open>
  A field value is one of the scalars of the data model, or an object. Numbers are IEEE
  doubles in JavaScript; their type is left open as \<open>'n\<close>, and the number-to-string
  conversion that \<open>String\<close> uses for them is a parameter \<open>num2str\<close> of every function
  that stringifies. An object or a function is kept as the text that \<open>String\<close> gives for
  it, which is all this program observes of it.
\<close>

datatype 'n jsval =
    JNull
  | JUndefined
  | JBoolean bool
  | JNumber 'n
  | JString jsstring
  | JObject jsstring

fun String_js :: "('n \<Rightarrow> jsstring) \<Rightarrow> 'n jsval \<Rightarrow> jsstring" where
  "String_js num2str JNull = u16 ''null''"
| "String_js num2str JUndefined = u16 ''undefined''"
| "String_js num2str (JBoolean b) = (if b then u16 ''true'' else u16 ''false'')"
| "String_js num2str (JNumber n) = num2str n"
| "String_js num2str (JString s) = s"
| "String_js num2str (JObject s) = s"

fun is_nullish :: "'n jsval \<Rightarrow> bool" where
  "is_nullish JNull = True"
| "is_nullish JUndefined = True"
| "is_nullish v = False"

text \<open>\<open>a ?? b\<close>.\<close>

definition nullish_coalesce :: "'n jsval \<Rightarrow> 'n jsval \<Rightarrow> 'n jsval" where
  "nullish_coalesce a b = (if is_nullish a then b else a)"

text \<open>
  A function of the program's surroundings (a formatter, a callback, a method found on a
  prototype) may throw, and may read and change the state around it: the store, of type
  \<open>'s\<close>. It takes the store and returns its result, or what it throws, with the new store.
\<close>

datatype jserror = TypeError | Thrown jsstring

type_synonym ('n, 's) jsfun = "'n jsval \<Rightarrow> 's \<Rightarrow> (jserror + 'n jsval) \<times> 's"

type_synonym 's callback = "'s \<Rightarrow> jserror option \<times> 's"

text \<open>
  Records and the formatter table are plain objects: a property that is not their own is
  looked up on the prototype chain, where \<open>Object.prototype\<close> has members such as
  \<open>constructor\<close>, \<open>valueOf\<close> and \<open>__proto__\<close>. A member is the value a read of it gives
  and, when the member can be called, what a call of it as a method of the formatter
  table does. The prototype is a parameter \<open>proto\<close> of every function that reads a
  property.
\<close>

datatype ('n, 's) member =
  Member (member_value: "'n jsval") (member_call: "('n, 's) jsfun option")

type_synonym ('n, 's) prototype = "jsstring \<rightharpoonup> ('n, 's) member"

text \<open>
  A record is the list of its own properties in enumeration order (the order of
  \<open>Object.keys\<close>). \<open>row[key]\<close> gives the own property if there is one, else the inherited
  member of that name, else \<open>undefined\<close>.
\<close>

type_synonym 'n row = "(jsstring \<times> 'n jsval) list"

definition Object_keys :: "'n row \<Rightarrow> jsstring list" where
  "Object_keys r = map fst r"

definition get_prop :: "('n, 's) prototype \<Rightarrow> 'n row \<Rightarrow> jsstring \<Rightarrow> 'n jsval" where
  "get_prop proto r key =
     (case map_of r key of
        Some v \<Rightarrow> v
      | None \<Rightarrow> (case proto key of Some m \<Rightarrow> member_value m | None \<Rightarrow> JUndefined))"

text \<open>Field selectors are strings, so \<open>String(key)\<close> returns the key.\<close>

definition String_key :: "jsstring \<Rightarrow> jsstring" where
  "String_key k = k"

section \<open>The clock\<close>

text \<open>
  \<open>new Date()\<close> reads the host clock. An instant is kept as its UTC calendar fields.
  \<open>toISOString\<close> follows ECMAScript: \<open>YYYY-MM-DDTHH:mm:ss.sssZ\<close>, where a year outside
  0 .. 9999 is written as an expanded year, a sign and six digits.
\<close>

record jsdate =
  year :: int
  month :: nat
  day :: nat
  hours :: nat
  minutes :: nat
  seconds :: nat
  milliseconds :: nat

definition digit :: "nat \<Rightarrow> jschar" where
  "digit k = of_nat (48 + k mod 10)"

fun pad :: "nat \<Rightarrow> nat \<Rightarrow> jsstring" where
  "pad 0 n = []"
| "pad (Suc w) n = pad w (n div 10) @ [digit n]"

definition year_string :: "int \<Rightarrow> jsstring" where
  "year_string y =
     (if 0 \<le> y \<and> y \<le> 9999 then pad 4 (nat y)
      else (if y < 0 then u16 ''-'' else u16 ''+'') @ pad 6 (nat \<bar>y\<bar>))"

definition toISOString :: "jsdate \<Rightarrow> jsstring" where
  "toISOString d =
     year_string (year d) @ u16 ''-'' @ pad 2 (month d) @ u16 ''-'' @ pad 2 (day d) @
     u16 ''T'' @ pad 2 (hours d) @ u16 '':'' @ pad 2 (minutes d) @ u16 '':'' @
     pad 2 (seconds d) @ u16 ''.'' @ pad 3 (milliseconds d) @ u16 ''Z''"

section \<open>Options and effects\<close>

datatype newline_style = LF | CRLF

fun newline_string :: "newline_style \<Rightarrow> jsstring" where
  "newline_string LF = u16 [CHR 0x0A]"
| "newline_string CRLF = u16 [CHR 0x0D, CHR 0x0A]"

text \<open>
  Every option but \<open>data\<close> is optional in \<open>CSVExportOptions\<close>; \<open>None\<close> is an option left
  out (or \<open>undefined\<close>). The formatter table maps its own keys to a function, or to
  \<open>None\<close> for an own property that holds \<open>undefined\<close>, as \<open>Partial\<close> allows.
\<close>

record ('n, 's) CSVExportOptions =
  data :: "'n row list option"
  filename :: "jsstring option"
  headers :: "jsstring list option"
  labels :: "jsstring list option"
  includeBOM :: "bool option"
  delimiter :: "jsstring option"
  formatters :: "(jsstring \<rightharpoonup> ('n, 's) jsfun option) option"
  quoteValues :: "bool option"
  addTimestamp :: "bool option"
  newline :: "newline_style option"
  onExportStart :: "'s callback option"
  onExportComplete :: "'s callback option"
  prependRows :: "jsstring list list option"
  appendRows :: "jsstring list list option"
  encoding :: "jsstring option"
  useKeysAsHeader :: "bool option"
  includeHeader :: "bool option"

text \<open>A destructuring default \<open>{x = d}\<close>.\<close>

fun dflt :: "'a \<Rightarrow> 'a option \<Rightarrow> 'a" where
  "dflt d None = d"
| "dflt d (Some x) = x"

text \<open>
  What a call does to its host, in order: callbacks invoked, the \<open>Blob\<close> built, and the
  calls on \<open>URL\<close>, \<open>document\<close> and the link element.
\<close>

datatype hook = OnExportStart | OnExportComplete

datatype effect =
    Invoke hook
  | NewBlob jsstring jsstring
  | CreateObjectURL
  | CreateElement jsstring
  | SetHref jsstring
  | SetAttribute jsstring jsstring
  | AppendChild
  | Click
  | RemoveChild
  | RevokeObjectURL jsstring

text \<open>What the host supplies: the instant \<open>new Date()\<close> reads, and the URL that
  \<open>URL.createObjectURL\<close> returns.\<close>

record env =
  now :: jsdate
  objectURL :: jsstring

text \<open>
  The outcome of a call: the effects on the host up to its end, what it threw if it did
  not return normally, and the store it leaves.
\<close>

record 's outcome =
  effects :: "effect list"
  raised :: "jserror option"
  store :: 's

text \<open>\<open>callback?.()\<close>.\<close>

definition invoke :: "hook \<Rightarrow> 's callback option \<Rightarrow> 's \<Rightarrow> 's outcome" where
  "invoke h cb s =
     (case cb of
        None \<Rightarrow> \<lparr>effects = [], raised = None, store = s\<rparr>
      | Some f \<Rightarrow> (case f s of (x, s') \<Rightarrow> \<lparr>effects = [Invoke h], raised = x, store = s'\<rparr>))"

text \<open>\<open>xs.map(f)\<close> for an \<open>f\<close> that may throw and change the store: the elements are
  visited in order, and the first throw ends the loop.\<close>

fun array_map ::
  "('a \<Rightarrow> 's \<Rightarrow> (jserror + 'b) \<times> 's) \<Rightarrow> 'a list \<Rightarrow> 's \<Rightarrow> (jserror + 'b list) \<times> 's" where
  "array_map f [] s = (Inr [], s)"
| "array_map f (x # xs) s =
     (case f x s of
        (Inl err, s1) \<Rightarrow> (Inl err, s1)
      | (Inr y, s1) \<Rightarrow>
          (case array_map f xs s1 of
             (Inl err, s2) \<Rightarrow> (Inl err, s2)
           | (Inr ys, s2) \<Rightarrow> (Inr (y # ys), s2)))"

section \<open>exportToCSV.ts\<close>

definition escapeCSVValue :: "('n \<Rightarrow> jsstring) \<Rightarrow> 'n jsval \<Rightarrow> bool \<Rightarrow> jsstring \<Rightarrow> jsstring" where
  "escapeCSVValue num2str v quoteVals delim =
     (if v = JNull \<or> v = JUndefined then []
      else
        let stringValue = String_js num2str v in
        if quoteVals \<or>
           str_includes stringValue delim \<or>
           str_includes stringValue [DQUOTE] \<or>
           str_includes stringValue [NEWLINE]
        then [DQUOTE] @ replace_dquotes stringValue @ [DQUOTE]
        else stringValue)"

text \<open>\<open>headers || Object.keys(data[0])\<close>; an array, even an empty one, is truthy.\<close>

definition keys_of :: "jsstring list option \<Rightarrow> 'n row \<Rightarrow> jsstring list" where
  "keys_of hdrs row0 = (case hdrs of Some h \<Rightarrow> h | None \<Rightarrow> Object_keys row0)"

text \<open>\<open>useKeysAsHeader ? keys.map(String) : (labels || keys.map(String))\<close>.\<close>

definition headerRow_of :: "bool \<Rightarrow> jsstring list option \<Rightarrow> jsstring list \<Rightarrow> jsstring list" where
  "headerRow_of useKeys lbls keys =
     (if useKeys then map String_key keys
      else (case lbls of Some l \<Rightarrow> l | None \<Rightarrow> map String_key keys))"

text \<open>
  \<open>formatters[key]?.(raw)\<close>: the table's own entry, else the member the table inherits
  under that name. A null or undefined value short-circuits to \<open>undefined\<close>; a value that
  is not a function makes the call throw a \<open>TypeError\<close>.
\<close>

definition call_formatter ::
  "('n, 's) prototype \<Rightarrow> (jsstring \<rightharpoonup> ('n, 's) jsfun option) \<Rightarrow> jsstring \<Rightarrow> ('n, 's) jsfun" where
  "call_formatter proto fmts key raw s =
     (case fmts key of
        Some (Some f) \<Rightarrow> f raw s
      | Some None \<Rightarrow> (Inr JUndefined, s)
      | None \<Rightarrow>
          (case proto key of
             None \<Rightarrow> (Inr JUndefined, s)
           | Some m \<Rightarrow>
               if is_nullish (member_value m) then (Inr JUndefined, s)
               else (case member_call m of
                       None \<Rightarrow> (Inl TypeError, s)
                     | Some f \<Rightarrow> f raw s)))"

text \<open>\<open>formatters[key]?.(raw) ?? raw\<close>.\<close>

definition formatted_of ::
  "('n, 's) prototype \<Rightarrow> (jsstring \<rightharpoonup> ('n, 's) jsfun option) \<Rightarrow> jsstring \<Rightarrow> ('n, 's) jsfun" where
  "formatted_of proto fmts key raw s =
     (case call_formatter proto fmts key raw s of
        (Inl err, s1) \<Rightarrow> (Inl err, s1)
      | (Inr v, s1) \<Rightarrow> (Inr (nullish_coalesce v raw), s1))"

text \<open>The body of \<open>keys.map((key) => ...)\<close>: one cell.\<close>

definition cell_of ::
  "('n \<Rightarrow> jsstring) \<Rightarrow> ('n, 's) prototype \<Rightarrow> (jsstring \<rightharpoonup> ('n, 's) jsfun option) \<Rightarrow>
   bool \<Rightarrow> jsstring \<Rightarrow> 'n row \<Rightarrow> jsstring \<Rightarrow> 's \<Rightarrow> (jserror + jsstring) \<times> 's" where
  "cell_of num2str proto fmts quoteVals delim r key s =
     (let raw = get_prop proto r key in
      case formatted_of proto fmts key raw s of
        (Inl err, s1) \<Rightarrow> (Inl err, s1)
      | (Inr formatted, s1) \<Rightarrow> (Inr (escapeCSVValue num2str formatted quoteVals delim), s1))"

text \<open>The body of \<open>data.map((row) => ...)\<close>: the cells of one record, joined.\<close>

definition csvRow_of ::
  "('n \<Rightarrow> jsstring) \<Rightarrow> ('n, 's) prototype \<Rightarrow> (jsstring \<rightharpoonup> ('n, 's) jsfun option) \<Rightarrow>
   bool \<Rightarrow> jsstring \<Rightarrow> jsstring list \<Rightarrow> 'n row \<Rightarrow> 's \<Rightarrow> (jserror + jsstring) \<times> 's" where
  "csvRow_of num2str proto fmts quoteVals delim keys r s =
     (case array_map (cell_of num2str proto fmts quoteVals delim r) keys s of
        (Inl err, s1) \<Rightarrow> (Inl err, s1)
      | (Inr cells, s1) \<Rightarrow> (Inr (join cells delim), s1))"

definition csvRows_of ::
  "('n \<Rightarrow> jsstring) \<Rightarrow> ('n, 's) prototype \<Rightarrow> (jsstring \<rightharpoonup> ('n, 's) jsfun option) \<Rightarrow>
   bool \<Rightarrow> jsstring \<Rightarrow> jsstring list \<Rightarrow> 'n row list \<Rightarrow> 's \<Rightarrow>
   (jserror + jsstring list) \<times> 's" where
  "csvRows_of num2str proto fmts quoteVals delim keys rows s =
     array_map (csvRow_of num2str proto fmts quoteVals delim keys) rows s"

definition contentRows_of ::
  "jsstring list list \<Rightarrow> bool \<Rightarrow> jsstring list \<Rightarrow> jsstring list \<Rightarrow> jsstring list list \<Rightarrow>
   jsstring \<Rightarrow> jsstring list" where
  "contentRows_of prepend inclHeader headerRow csvRows appendR delim =
     map (\<lambda>r. join r delim) prepend @
     (if inclHeader then [join headerRow delim] else []) @
     csvRows @
     map (\<lambda>r. join r delim) appendR"

definition finalFilename_of :: "bool \<Rightarrow> jsstring \<Rightarrow> jsdate \<Rightarrow> jsstring" where
  "finalFilename_of addTs fname d =
     (if addTs
      then remove_csv_suffix fname @ u16 ''-'' @
           replace_colons (take 19 (toISOString d)) @ u16 ''.csv''
      else fname)"

definition exportToCSV ::
  "('n \<Rightarrow> jsstring) \<Rightarrow> ('n, 's) prototype \<Rightarrow> ('n, 's) CSVExportOptions \<Rightarrow> env \<Rightarrow> 's \<Rightarrow>
   's outcome" where
  "exportToCSV num2str proto opts e s =
     (case data opts of
        None \<Rightarrow> \<lparr>effects = [], raised = None, store = s\<rparr>
      | Some [] \<Rightarrow> \<lparr>effects = [], raised = None, store = s\<rparr>
      | Some (row0 # rest) \<Rightarrow>
          let rows = row0 # rest;
              fname = dflt (u16 ''export.csv'') (filename opts);
              inclBOM = dflt False (includeBOM opts);
              delim = dflt (u16 '','') (delimiter opts);
              fmts = dflt Map.empty (formatters opts);
              quoteVals = dflt True (quoteValues opts);
              addTs = dflt False (addTimestamp opts);
              nl = newline_string (dflt LF (newline opts));
              prepend = dflt [] (prependRows opts);
              appendR = dflt [] (appendRows opts);
              enc = dflt (u16 ''utf-8'') (encoding opts);
              useKeys = dflt False (useKeysAsHeader opts);
              inclHeader = dflt True (includeHeader opts);
              started = invoke OnExportStart (onExportStart opts) s
          in if raised started \<noteq> None then started
             else
               let keys = keys_of (headers opts) row0;
                   headerRow = headerRow_of useKeys (labels opts) keys
               in case csvRows_of num2str proto fmts quoteVals delim keys rows (store started) of
                    (Inl err, s1) \<Rightarrow>
                      \<lparr>effects = effects started, raised = Some err, store = s1\<rparr>
                  | (Inr csvRows, s1) \<Rightarrow>
                      let contentRows =
                            contentRows_of prepend inclHeader headerRow csvRows appendR delim;
                          content = join contentRows nl;
                          finalCsv = (if inclBOM then [BOM] else []) @ content;
                          finalFilename = finalFilename_of addTs fname (now e);
                          url = objectURL e;
                          completed = invoke OnExportComplete (onExportComplete opts) s1
                      in \<lparr>effects =
                            effects started @
                            [NewBlob finalCsv (u16 ''text/csv;charset='' @ enc),
                             CreateObjectURL,
                             CreateElement (u16 ''a''),
                             SetHref url,
                             SetAttribute (u16 ''download'') finalFilename,
                             AppendChild,
                             Click,
                             RemoveChild,
                             RevokeObjectURL url] @
                            effects completed,
                          raised = raised completed,
                          store = store completed\<rparr>)"

section \<open>useCSVExporter.ts\<close>

definition useCSVExporter ::
  "('n \<Rightarrow> jsstring) \<Rightarrow> ('n, 's) prototype \<Rightarrow> ('n, 's) CSVExportOptions \<Rightarrow> env \<Rightarrow> 's \<Rightarrow>
   's outcome" where
  "useCSVExporter num2str proto = (\<lambda>options. exportToCSV num2str proto options)"

section \<open>Reading the effects of a call\<close>

text \<open>The text handed to \<open>new Blob\<close>, and the name set as the link's \<open>download\<close>
  attribute.\<close>

fun blob_content :: "effect list \<Rightarrow> jsstring option" where
  "blob_content [] = None"
| "blob_content (NewBlob txt ty # es) = Some txt"
| "blob_content (x # es) = blob_content es"

fun download_name :: "effect list \<Rightarrow> jsstring option" where
  "download_name [] = None"
| "download_name (SetAttribute a v # es) =
     (if a = u16 ''download'' then Some v else download_name es)"
| "download_name (x # es) = download_name es"

section \<open>Notions of the specification\<close>

text \<open>
  In the words of the spec (section 4.2, step 4): a string wrapped in double quotes, with
  every embedded double quote doubled.
\<close>

definition csv_quoted :: "jsstring \<Rightarrow> jsstring" where
  "csv_quoted s =
     [DQUOTE] @ concat (map (\<lambda>c. if c = DQUOTE then [DQUOTE, DQUOTE] else [c]) s) @ [DQUOTE]"

text \<open>
  In the words of the spec (section 8): unescaping strips the surrounding double quotes
  and replaces each doubled double quote inside by a single one. The repository has no
  unescaper; this one is the inverse the round-trip property speaks of.
\<close>

definition strip_quotes :: "jsstring \<Rightarrow> jsstring" where
  "strip_quotes s =
     (if 2 \<le> length s \<and> hd s = DQUOTE \<and> last s = DQUOTE then butlast (tl s) else s)"

fun undouble :: "jsstring \<Rightarrow> jsstring" where
  "undouble (a # b # cs) =
     (if a = DQUOTE \<and> b = DQUOTE then DQUOTE # undouble cs else a # undouble (b # cs))"
| "undouble cs = cs"

definition unescape :: "jsstring \<Rightarrow> jsstring" where
  "unescape s = undouble (strip_quotes s)"

text \<open>
  In the words of the spec (section 4.4): the ISO stamp of an instant truncated to
  seconds, that is without fractional seconds and time zone.
\<close>

definition iso_seconds :: "jsdate \<Rightarrow> jsstring" where
  "iso_seconds d =
     year_string (year d) @ u16 ''-'' @ pad 2 (month d) @ u16 ''-'' @ pad 2 (day d) @
     u16 ''T'' @ pad 2 (hours d) @ u16 '':'' @ pad 2 (minutes d) @ u16 '':'' @
     pad 2 (seconds d)"

text \<open>
  In the words of the spec (section 4.4): the timestamp token, the ISO stamp truncated
  to seconds with its colons replaced by hyphens, such as \<open>2023-12-25T10-30-45\<close>.
\<close>

definition timestamp_token :: "jsdate \<Rightarrow> jsstring" where
  "timestamp_token d =
     year_string (year d) @ u16 ''-'' @ pad 2 (month d) @ u16 ''-'' @ pad 2 (day d) @
     u16 ''T'' @ pad 2 (hours d) @ u16 ''-'' @ pad 2 (minutes d) @ u16 ''-'' @
     pad 2 (seconds d)"

section \<open>Data of the test suite\<close>

text \<open>Integer-valued numbers, with the decimal rendering \<open>String\<close> gives them.\<close>

fun nat_string :: "nat \<Rightarrow> jsstring" where
  "nat_string n = (if n < 10 then [digit n] else nat_string (n div 10) @ [digit n])"

declare nat_string.simps [simp del]

definition int_string :: "int \<Rightarrow> jsstring" where
  "int_string i = (if i < 0 then u16 ''-'' @ nat_string (nat (- i)) else nat_string (nat i))"

text \<open>\<open>exportToCSV({data})\<close>: every other option left out.\<close>

definition data_only :: "'n row list option \<Rightarrow> ('n, 's) CSVExportOptions" where
  "data_only rows =
     \<lparr>data = rows, filename = None, headers = None, labels = None, includeBOM = None,
      delimiter = None, formatters = None, quoteValues = None, addTimestamp = None,
      newline = None, onExportStart = None, onExportComplete = None, prependRows = None,
      appendRows = None, encoding = None, useKeysAsHeader = None, includeHeader = None\<rparr>"

definition sampleData :: "int row list" where
  "sampleData =
     [[(u16 ''name'', JString (u16 ''John Doe'')), (u16 ''age'', JNumber 30),
       (u16 ''email'', JString (u16 ''john@example.com''))],
      [(u16 ''name'', JString (u16 ''Jane Smith'')), (u16 ''age'', JNumber 25),
       (u16 ''email'', JString (u16 ''jane@example.com''))]]"

text \<open>The clock of the timestamp test, 2023-12-25T10:30:45.123Z, and the mocked URL.\<close>

definition test_clock :: jsdate where
  "test_clock =
     \<lparr>year = 2023, month = 12, day = 25, hours = 10, minutes = 30, seconds = 45,
      milliseconds = 123\<rparr>"

definition test_env :: env where
  "test_env = \<lparr>now = test_clock, objectURL = u16 ''blob:mock-url''\<rparr>"

text \<open>
  The two members of \<open>Object.prototype\<close> that the examples read. \<open>constructor\<close> is
  \<open>Object\<close>: called on null or undefined it makes a new empty object, and on another
  value the object for that value, whose string conversion is the value's. \<open>__proto__\<close>
  reads as \<open>Object.prototype\<close> itself, which is not a function.
\<close>

definition test_prototype :: "(int, 's) prototype" where
  "test_prototype =
     [u16 ''constructor'' \<mapsto>
        Member (JObject (u16 ''function Object() { [native code] }''))
          (Some (\<lambda>v s. (Inr (if is_nullish v then JObject (u16 ''[object Object]'') else v), s))),
      u16 ''__proto__'' \<mapsto> Member (JObject (u16 ''[object Object]'')) None]"

text \<open>The rows of the null-handling test, and the formatter
  \<open>(value) => `${value} years old`\<close> of the formatter test.\<close>

definition dataWithNulls :: "int row list" where
  "dataWithNulls =
     [[(u16 ''name'', JString (u16 ''John'')), (u16 ''age'', JNull),
       (u16 ''email'', JUndefined)],
      [(u16 ''name'', JNull), (u16 ''age'', JNumber 25),
       (u16 ''email'', JString (u16 ''jane@example.com''))]]"

definition years_old :: "(int, 's) jsfun" where
  "years_old v s = (Inr (JString (String_js int_string v @ u16 '' years old'')), s)"



text \<open>The first instant of the year 10000, +010000-01-01T00:00:00.000Z.\<close>

definition year_10000 :: jsdate where
  "year_10000 =
     \<lparr>year = 10000, month = 1, day = 1, hours = 0, minutes = 0, seconds = 0,
      milliseconds = 0\<rparr>"

section \<open>Facts about the string operations\<close>

lemma startsWith_iff: "startsWith s d \<longleftrightarrow> (\<exists>b. s = d @ b)"
  by (induction s d rule: startsWith.induct) auto

lemma str_includes_iff: "str_includes s d \<longleftrightarrow> (\<exists>a b. s = a @ d @ b)"
proof (induction s)
  case Nil
  then show ?case by simp
next
  case (Cons c cs)
  show ?case
  proof
    assume "str_includes (c # cs) d"
    then consider "startsWith (c # cs) d" | "str_includes cs d" by auto
    then show "\<exists>a b. c # cs = a @ d @ b"
    proof cases
      case 1
      then obtain b where "c # cs = d @ b" using startsWith_iff by blast
      then have "c # cs = [] @ d @ b" by simp
      then show ?thesis by blast
    next
      case 2
      then obtain a b where "cs = a @ d @ b" using Cons.IH by blast
      then have "c # cs = (c # a) @ d @ b" by simp
      then show ?thesis by blast
    qed
  next
    assume "\<exists>a b. c # cs = a @ d @ b"
    then obtain a b where ab: "c # cs = a @ d @ b" by blast
    show "str_includes (c # cs) d"
    proof (cases a)
      case Nil
      with ab have "startsWith (c # cs) d" using startsWith_iff by auto
      then show ?thesis by simp
    next
      case (Cons x a')
      with ab have "cs = a' @ d @ b" by simp
      then have "str_includes cs d" using Cons.IH by blast
      then show ?thesis by simp
    qed
  qed
qed

lemma replace_dquotes_concat:
  "replace_dquotes s = concat (map (\<lambda>c. if c = DQUOTE then [DQUOTE, DQUOTE] else [c]) s)"
  by (induction s) simp_all

lemma csv_quoted_replace: "csv_quoted s = [DQUOTE] @ replace_dquotes s @ [DQUOTE]"
  by (simp add: csv_quoted_def replace_dquotes_concat)

lemma length_replace_dquotes: "length s \<le> length (replace_dquotes s)"
  by (induction s) auto

lemma csv_quoted_neq: "csv_quoted s \<noteq> s"
proof
  assume "csv_quoted s = s"
  then have "length (csv_quoted s) = length s" by simp
  moreover have "length (csv_quoted s) = length (replace_dquotes s) + 2"
    by (simp add: csv_quoted_replace)
  ultimately show False using length_replace_dquotes [of s] by linarith
qed

lemma undouble_Cons_other: "a \<noteq> DQUOTE \<Longrightarrow> undouble (a # xs) = a # undouble xs"
  by (cases xs) simp_all

lemma undouble_replace_dquotes: "undouble (replace_dquotes s) = s"
  by (induction s) (simp_all add: undouble_Cons_other)

lemma strip_quotes_wrapped: "strip_quotes ([DQUOTE] @ x @ [DQUOTE]) = x"
  by (simp add: strip_quotes_def)

lemma unescape_csv_quoted: "unescape (csv_quoted s) = s"
  by (simp add: unescape_def csv_quoted_replace strip_quotes_wrapped undouble_replace_dquotes
      del: append.simps)

section \<open>Facts about digits, stamps and suffixes\<close>

lemma unat_digit: "unat (digit k) = 48 + k mod 10"
proof -
  have "k mod 10 < 10" by simp
  then have lt: "48 + k mod 10 < 2 ^ LENGTH(16)" by simp
  show ?thesis unfolding digit_def by (simp only: unat_of_nat mod_less [OF lt])
qed

lemma digit_neq_COLON: "digit k \<noteq> COLON"
proof
  assume "digit k = COLON"
  then have "unat (digit k) = unat COLON" by simp
  then have "48 + k mod 10 = 58" by (simp add: unat_digit COLON_def)
  moreover have "k mod 10 < 10" by simp
  ultimately show False by linarith
qed

lemma length_pad: "length (pad w n) = w"
  by (induction w arbitrary: n) simp_all

lemma replace_colons_append: "replace_colons (a @ b) = replace_colons a @ replace_colons b"
  by (simp add: replace_colons_def)

lemma replace_colons_pad: "replace_colons (pad w n) = pad w n"
  by (induction w arbitrary: n) (simp_all add: replace_colons_def digit_neq_COLON)

lemma replace_colons_lits:
  "replace_colons (u16 ''-'') = u16 ''-''"
  "replace_colons (u16 ''T'') = u16 ''T''"
  "replace_colons (u16 '':'') = u16 ''-''"
  by (simp_all add: replace_colons_def u16_def COLON_def HYPHEN_def)

lemma toISOString_iso_seconds:
  "toISOString d = iso_seconds d @ u16 ''.'' @ pad 3 (milliseconds d) @ u16 ''Z''"
  by (simp add: toISOString_def iso_seconds_def)

lemma length_iso_seconds:
  "0 \<le> year d \<Longrightarrow> year d \<le> 9999 \<Longrightarrow> length (iso_seconds d) = 19"
  by (simp add: iso_seconds_def year_string_def length_pad u16_def)

lemma take_19_toISOString:
  "0 \<le> year d \<Longrightarrow> year d \<le> 9999 \<Longrightarrow> take 19 (toISOString d) = iso_seconds d"
  by (simp add: toISOString_iso_seconds length_iso_seconds)

lemma endsWith_iff: "endsWith s d \<longleftrightarrow> (\<exists>b. s = b @ d)"
proof
  assume "endsWith s d"
  then obtain b where "rev s = rev d @ b" by (auto simp: endsWith_def startsWith_iff)
  then have "s = rev b @ d" by (metis rev_append rev_rev_ident)
  then show "\<exists>b. s = b @ d" by blast
next
  assume "\<exists>b. s = b @ d"
  then obtain b where "s = b @ d" by blast
  then show "endsWith s d" by (simp add: endsWith_def startsWith_iff)
qed

lemma remove_csv_suffix_present: "remove_csv_suffix (b @ u16 ''.csv'') = b"
proof -
  have "endsWith (b @ u16 ''.csv'') (u16 ''.csv'')" using endsWith_iff by blast
  moreover have "length (u16 ''.csv'') = 4" by (simp add: u16_def)
  ultimately show ?thesis by (simp add: remove_csv_suffix_def)
qed

lemma remove_csv_suffix_absent:
  "\<not> (\<exists>b. s = b @ u16 ''.csv'') \<Longrightarrow> remove_csv_suffix s = s"
  by (simp add: remove_csv_suffix_def endsWith_iff)

lemma pad_2: "pad 2 n = [digit (n div 10), digit n]"
  by (simp add: numeral_2_eq_2)

lemma pad_3: "pad 3 n = [digit (n div 100), digit (n div 10), digit n]"
  by (simp add: numeral_3_eq_3 div_mult2_eq [symmetric])

lemma pad_4: "pad 4 n = [digit (n div 1000), digit (n div 100), digit (n div 10), digit n]"
proof -
  have "pad 4 n = pad (Suc 3) n" by simp
  also have "\<dots> = pad 3 (n div 10) @ [digit n]" by (simp only: pad.simps)
  finally show ?thesis by (simp add: pad_3 div_mult2_eq [symmetric])
qed

lemma pad_5:
  "pad 5 n =
     [digit (n div 10000), digit (n div 1000), digit (n div 100), digit (n div 10), digit n]"
proof -
  have "pad 5 n = pad (Suc 4) n" by simp
  also have "\<dots> = pad 4 (n div 10) @ [digit n]" by (simp only: pad.simps)
  finally show ?thesis by (simp add: pad_4 div_mult2_eq [symmetric])
qed

lemma pad_6:
  "pad 6 n =
     [digit (n div 100000), digit (n div 10000), digit (n div 1000), digit (n div 100),
      digit (n div 10), digit n]"
proof -
  have "pad 6 n = pad (Suc 5) n" by simp
  also have "\<dots> = pad 5 (n div 10) @ [digit n]" by (simp only: pad.simps)
  finally show ?thesis by (simp add: pad_5 div_mult2_eq [symmetric])
qed

lemmas pad_numerals = pad_2 pad_3 pad_4 pad_6




section \<open>The escaper\<close>

lemma escapeCSVValue_not_nullish:
  "v \<noteq> JNull \<Longrightarrow> v \<noteq> JUndefined \<Longrightarrow>
   escapeCSVValue num2str v quoteVals delim =
     (if quoteVals \<or> str_includes (String_js num2str v) delim \<or>
         str_includes (String_js num2str v) [DQUOTE] \<or>
         str_includes (String_js num2str v) [NEWLINE]
      then csv_quoted (String_js num2str v) else String_js num2str v)"
  by (simp add: escapeCSVValue_def csv_quoted_replace Let_def)

text \<open>
  C1, as stated, fails: the claim quantifies over every value, and with quoting forced on
  the value \<open>null\<close> gives the empty cell, not a quoted one.
\<close>

theorem escapeCSVValue_null_counterexample:
  "escapeCSVValue int_string JNull True (u16 '','') = [] \<and>
   \<not> (escapeCSVValue int_string JNull True (u16 '','') = csv_quoted (String_js int_string JNull)
        \<longleftrightarrow> True \<or> str_includes (String_js int_string JNull) (u16 '','') \<or>
            str_includes (String_js int_string JNull) [DQUOTE] \<or>
            str_includes (String_js int_string JNull) [NEWLINE])"
  by (simp add: escapeCSVValue_def csv_quoted_def)

text \<open>
  C1, amended. For every value other than null and undefined and every configuration,
  the cell text is the stringified value wrapped in double quotes with every embedded
  double quote doubled if and only if quoting is forced on, or the stringified value
  contains the delimiter, a double quote or a newline; otherwise it is the stringified
  value itself. In particular, with quoting off, a value that contains the delimiter is
  still quoted.
\<close>

theorem escapeCSVValue_quoted_iff:
  assumes "v \<noteq> JNull" and "v \<noteq> JUndefined"
  shows "(escapeCSVValue num2str v quoteVals delim = csv_quoted (String_js num2str v) \<longleftrightarrow>
            quoteVals \<or> str_includes (String_js num2str v) delim \<or>
            str_includes (String_js num2str v) [DQUOTE] \<or>
            str_includes (String_js num2str v) [NEWLINE]) \<and>
         (escapeCSVValue num2str v quoteVals delim = csv_quoted (String_js num2str v) \<or>
          escapeCSVValue num2str v quoteVals delim = String_js num2str v) \<and>
         (str_includes (String_js num2str v) delim \<longrightarrow>
            escapeCSVValue num2str v False delim = csv_quoted (String_js num2str v))"
  using assms csv_quoted_neq [of "String_js num2str v"]
  by (auto simp: escapeCSVValue_not_nullish)

theorem escapeCSVValue_quoted_iff_witness:
  "JString (u16 ''Doe, John'') \<noteq> (JNull :: int jsval) \<and>
   JString (u16 ''Doe, John'') \<noteq> (JUndefined :: int jsval) \<and>
   str_includes (String_js int_string (JString (u16 ''Doe, John''))) (u16 '','') \<and>
   escapeCSVValue int_string (JString (u16 ''Doe, John'')) False (u16 '','') =
     csv_quoted (String_js int_string (JString (u16 ''Doe, John''))) \<and>
   escapeCSVValue int_string (JString (u16 ''Doe, John'')) False (u16 '','') =
     u16 ''\"Doe, John\"''"
proof -
  let ?v = "JString (u16 ''Doe, John'') :: int jsval"
  have h1: "?v \<noteq> JNull" and h2: "?v \<noteq> JUndefined" by simp_all
  have h3: "str_includes (String_js int_string ?v) (u16 '','')" by (simp add: u16_def)
  have "escapeCSVValue int_string ?v False (u16 '','') = csv_quoted (String_js int_string ?v)"
    using escapeCSVValue_quoted_iff [OF h1 h2, of int_string False "u16 '',''"] h3 by blast
  moreover have "csv_quoted (String_js int_string ?v) = u16 ''\"Doe, John\"''"
    by (simp add: csv_quoted_def u16_def DQUOTE_def)
  ultimately show ?thesis using h1 h2 h3 by simp
qed

text \<open>
  C8, as stated, fails: the claim is made for every value, and \<open>String(null)\<close> is
  \<open>null\<close>, which contains the delimiter \<open>u\<close>; the escaper returns the empty cell for
  null, and unescaping the empty cell does not give \<open>null\<close> back.
\<close>

theorem roundtrip_null_counterexample:
  "str_includes (String_js int_string JNull) (u16 ''u'') \<and>
   escapeCSVValue int_string JNull False (u16 ''u'') = [] \<and>
   unescape (escapeCSVValue int_string JNull False (u16 ''u'')) \<noteq> String_js int_string JNull"
  by (simp add: escapeCSVValue_def unescape_def strip_quotes_def u16_def)

text \<open>
  C8, amended. Round trip: for every value other than null and undefined whose
  stringification contains the delimiter, a double quote or a newline, escaping and then
  unescaping, that is stripping the surrounding double quotes and replacing each doubled
  double quote by a single one, gives back the stringified value.
\<close>

theorem escape_unescape_roundtrip:
  assumes "v \<noteq> JNull" and "v \<noteq> JUndefined"
    and "str_includes (String_js num2str v) delim \<or>
         str_includes (String_js num2str v) [DQUOTE] \<or>
         str_includes (String_js num2str v) [NEWLINE]"
  shows "unescape (escapeCSVValue num2str v quoteVals delim) = String_js num2str v"
  using assms by (simp add: escapeCSVValue_not_nullish unescape_csv_quoted)

theorem escape_unescape_roundtrip_witness:
  "str_includes (String_js int_string (JString (u16 ''He said \"Hello\", twice''))) [DQUOTE] \<and>
   escapeCSVValue int_string (JString (u16 ''He said \"Hello\", twice'')) False (u16 '','') =
     u16 ''\"He said \"\"Hello\"\", twice\"'' \<and>
   unescape (escapeCSVValue int_string (JString (u16 ''He said \"Hello\", twice'')) False (u16 '','')) =
     u16 ''He said \"Hello\", twice''"
proof -
  let ?v = "JString (u16 ''He said \"Hello\", twice'') :: int jsval"
  have h1: "?v \<noteq> JNull" and h2: "?v \<noteq> JUndefined" by simp_all
  have q: "str_includes (String_js int_string ?v) [DQUOTE]"
    by (simp add: u16_def DQUOTE_def)
  then have h3: "str_includes (String_js int_string ?v) (u16 '','') \<or>
      str_includes (String_js int_string ?v) [DQUOTE] \<or>
      str_includes (String_js int_string ?v) [NEWLINE]" by blast
  have "escapeCSVValue int_string ?v False (u16 '','') = u16 ''\"He said \"\"Hello\"\", twice\"''"
    by (simp add: escapeCSVValue_def u16_def DQUOTE_def NEWLINE_def)
  then show ?thesis
    using q escape_unescape_roundtrip [OF h1 h2 h3, of False] by simp
qed


section \<open>Loops, property reads and formatter calls\<close>

lemma array_map_pure:
  "(\<And>x t. x \<in> set xs \<Longrightarrow> f x t = (Inr (g x), t)) \<Longrightarrow> array_map f xs s = (Inr (map g xs), s)"
  by (induction xs) simp_all


lemma call_formatter_nothing:
  "fmts key = None \<Longrightarrow> proto key = None \<Longrightarrow>
   call_formatter proto fmts key raw s = (Inr JUndefined, s)"
  by (simp add: call_formatter_def)

lemma get_prop_nullish:
  "map_of r key = Some JNull \<or> map_of r key = Some JUndefined \<or>
   (map_of r key = None \<and>
    (proto key = None \<or> (\<exists>m. proto key = Some m \<and> is_nullish (member_value m)))) \<Longrightarrow>
   is_nullish (get_prop proto r key)"
  by (auto simp: get_prop_def)

lemma escapeCSVValue_nullish: "is_nullish v \<Longrightarrow> escapeCSVValue num2str v quoteVals delim = []"
  by (cases v) (simp_all add: escapeCSVValue_def)

lemma cell_of_pure:
  assumes "call_formatter proto fmts key (get_prop proto r key) s = (Inr v, s')"
  shows "cell_of num2str proto fmts quoteVals delim r key s =
     (Inr (escapeCSVValue num2str (nullish_coalesce v (get_prop proto r key)) quoteVals delim), s')"
  using assms by (simp add: cell_of_def formatted_of_def)

section \<open>Null cells\<close>

text \<open>
  C3, as stated, fails where a formatter is found for the field: the formatter runs
  before the null check, so a null field formatted by \<open>(value) => `${value} years old`\<close>
  gives the cell \<open>null years old\<close>, and a formatter that returns null on a field that is
  not null gives the cell of the raw value, because of the \<open>?? raw\<close> fallback. A formatter
  need not be registered to be found: for a null field named \<open>constructor\<close> the empty
  table inherits \<open>Object\<close>, and the cell is \<open>[object Object]\<close> in quotes.
\<close>

theorem formatter_on_null_counterexample:
  "map_of (hd dataWithNulls) (u16 ''age'') = Some JNull \<and>
   cell_of int_string test_prototype [u16 ''age'' \<mapsto> Some years_old] True (u16 '','')
     (hd dataWithNulls) (u16 ''age'') () = (Inr (u16 ''\"null years old\"''), ()) \<and>
   cell_of int_string test_prototype [u16 ''age'' \<mapsto> Some years_old] False (u16 '','')
     (hd dataWithNulls) (u16 ''age'') () = (Inr (u16 ''null years old''), ()) \<and>
   cell_of int_string test_prototype [u16 ''name'' \<mapsto> Some (\<lambda>v s. (Inr JNull, s))] False (u16 '','')
     (hd dataWithNulls) (u16 ''name'') () = (Inr (u16 ''John''), ()) \<and>
   cell_of int_string test_prototype Map.empty True (u16 '','')
     [(u16 ''constructor'', JNull)] (u16 ''constructor'') () =
     (Inr (u16 ''\"[object Object]\"''), ())"
  by (simp add: dataWithNulls_def cell_of_def get_prop_def formatted_of_def call_formatter_def
      nullish_coalesce_def years_old_def escapeCSVValue_def test_prototype_def u16_def
      DQUOTE_def NEWLINE_def)

text \<open>
  C3, amended. If the value read for the field is null or undefined (an own property
  that holds null or undefined, or no own property and nothing, or a null or undefined
  member, inherited under that name), and the formatter call for the field, on the
  table's own entry or else on the member the table inherits, finds nothing to call or
  returns null or undefined, then the cell is the empty string, never the text \<open>null\<close>
  or \<open>undefined\<close>.
\<close>

theorem null_cell_empty:
  assumes "map_of r key = Some JNull \<or> map_of r key = Some JUndefined \<or>
           (map_of r key = None \<and>
            (proto key = None \<or> (\<exists>m. proto key = Some m \<and> is_nullish (member_value m))))"
    and "call_formatter proto fmts key (get_prop proto r key) s = (Inr v, s1)"
    and "is_nullish v"
  shows "cell_of num2str proto fmts quoteVals delim r key s = (Inr [], s1) \<and>
         fst (cell_of num2str proto fmts quoteVals delim r key s) \<noteq> Inr (u16 ''null'') \<and>
         fst (cell_of num2str proto fmts quoteVals delim r key s) \<noteq> Inr (u16 ''undefined'')"
proof -
  have "is_nullish (get_prop proto r key)" using assms(1) by (rule get_prop_nullish)
  with assms(3) have "is_nullish (nullish_coalesce v (get_prop proto r key))"
    by (simp add: nullish_coalesce_def)
  then have "cell_of num2str proto fmts quoteVals delim r key s = (Inr [], s1)"
    by (simp add: cell_of_pure [OF assms(2)] escapeCSVValue_nullish)
  then show ?thesis by (simp add: u16_def)
qed

theorem null_cell_empty_witness:
  "map_of (hd dataWithNulls) (u16 ''age'') = Some JNull \<and>
   map_of (hd dataWithNulls) (u16 ''email'') = Some JUndefined \<and>
   map_of (hd dataWithNulls) (u16 ''phone'') = None \<and>
   (test_prototype :: (int, unit) prototype) (u16 ''phone'') = None \<and>
   cell_of int_string test_prototype Map.empty True (u16 '','') (hd dataWithNulls) (u16 ''age'') () =
     (Inr [], ()) \<and>
   cell_of int_string test_prototype Map.empty True (u16 '','') (hd dataWithNulls) (u16 ''email'') () =
     (Inr [], ()) \<and>
   cell_of int_string test_prototype Map.empty True (u16 '','') (hd dataWithNulls) (u16 ''phone'') () =
     (Inr [], ()) \<and>
   cell_of int_string test_prototype [u16 ''age'' \<mapsto> Some (\<lambda>v s. (Inr v, s))] True (u16 '','')
     (hd dataWithNulls) (u16 ''age'') () = (Inr [], ())"
proof -
  let ?r = "hd dataWithNulls"
  let ?p = "test_prototype :: (int, unit) prototype"
  let ?f = "[u16 ''age'' \<mapsto> Some (\<lambda>v s. (Inr v, s))] :: jsstring \<rightharpoonup> (int, unit) jsfun option"
  have a: "map_of ?r (u16 ''age'') = Some JNull"
    and b: "map_of ?r (u16 ''email'') = Some JUndefined"
    and c: "map_of ?r (u16 ''phone'') = None"
    by (simp_all add: dataWithNulls_def u16_def)
  have p: "?p (u16 ''phone'') = None" "?p (u16 ''age'') = None" "?p (u16 ''email'') = None"
    by (simp_all add: test_prototype_def u16_def)
  have ra: "map_of ?r (u16 ''age'') = Some JNull \<or> map_of ?r (u16 ''age'') = Some JUndefined \<or>
      (map_of ?r (u16 ''age'') = None \<and>
       (?p (u16 ''age'') = None \<or> (\<exists>m. ?p (u16 ''age'') = Some m \<and> is_nullish (member_value m))))"
    using a by blast
  have rb: "map_of ?r (u16 ''email'') = Some JNull \<or> map_of ?r (u16 ''email'') = Some JUndefined \<or>
      (map_of ?r (u16 ''email'') = None \<and>
       (?p (u16 ''email'') = None \<or> (\<exists>m. ?p (u16 ''email'') = Some m \<and> is_nullish (member_value m))))"
    using b by blast
  have rc: "map_of ?r (u16 ''phone'') = Some JNull \<or> map_of ?r (u16 ''phone'') = Some JUndefined \<or>
      (map_of ?r (u16 ''phone'') = None \<and>
       (?p (u16 ''phone'') = None \<or> (\<exists>m. ?p (u16 ''phone'') = Some m \<and> is_nullish (member_value m))))"
    using c p(1) by blast
  have n: "call_formatter ?p Map.empty k (get_prop ?p ?r k) () = (Inr JUndefined, ())"
    if "?p k = None" for k
    using that by (simp add: call_formatter_nothing)
  have f: "call_formatter ?p ?f (u16 ''age'') (get_prop ?p ?r (u16 ''age'')) () = (Inr JNull, ())"
    using a by (simp add: call_formatter_def get_prop_def)
  have u: "is_nullish (JUndefined :: int jsval)" and l: "is_nullish (JNull :: int jsval)"
    by simp_all
  show ?thesis
    using a b c p(1)
      null_cell_empty [OF ra n [OF p(2)] u, of int_string True "u16 '',''"]
      null_cell_empty [OF rb n [OF p(3)] u, of int_string True "u16 '',''"]
      null_cell_empty [OF rc n [OF p(1)] u, of int_string True "u16 '',''"]
      null_cell_empty [OF ra f l, of int_string True "u16 '',''"]
    by blast
qed

section \<open>The export\<close>

lemma blob_content_invoke: "blob_content (effects (invoke h cb s) @ es) = blob_content es"
  by (simp add: invoke_def split: option.splits prod.splits)

lemma download_name_invoke: "download_name (effects (invoke h cb s) @ es) = download_name es"
  by (simp add: invoke_def split: option.splits prod.splits)

lemma blob_content_invoke_only: "blob_content (effects (invoke h cb s)) = None"
  using blob_content_invoke [of h cb s "[]"] by simp

lemma download_name_invoke_only: "download_name (effects (invoke h cb s)) = None"
  using download_name_invoke [of h cb s "[]"] by simp

lemma exportToCSV_blob_content:
  assumes "data opts = Some (row0 # rest)"
  shows "blob_content (effects (exportToCSV num2str proto opts e s)) =
     (if raised (invoke OnExportStart (onExportStart opts) s) \<noteq> None then None
      else
        case csvRows_of num2str proto (dflt Map.empty (formatters opts))
               (dflt True (quoteValues opts)) (dflt (u16 '','') (delimiter opts))
               (keys_of (headers opts) row0) (row0 # rest)
               (store (invoke OnExportStart (onExportStart opts) s)) of
          (Inl err, s1) \<Rightarrow> None
        | (Inr csvRows, s1) \<Rightarrow>
            Some ((if dflt False (includeBOM opts) then [BOM] else []) @
              join
                (contentRows_of (dflt [] (prependRows opts)) (dflt True (includeHeader opts))
                   (headerRow_of (dflt False (useKeysAsHeader opts)) (labels opts)
                      (keys_of (headers opts) row0))
                   csvRows (dflt [] (appendRows opts)) (dflt (u16 '','') (delimiter opts)))
                (newline_string (dflt LF (newline opts)))))"
  using assms
  by (simp add: exportToCSV_def Let_def blob_content_invoke blob_content_invoke_only
      split: prod.splits sum.splits)

lemma exportToCSV_download_name:
  assumes "data opts = Some (row0 # rest)"
  shows "download_name (effects (exportToCSV num2str proto opts e s)) =
     (if blob_content (effects (exportToCSV num2str proto opts e s)) = None then None
      else Some (finalFilename_of (dflt False (addTimestamp opts))
                   (dflt (u16 ''export.csv'') (filename opts)) (now e)))"
  using assms
  by (simp add: exportToCSV_def Let_def blob_content_invoke blob_content_invoke_only
      download_name_invoke download_name_invoke_only split: prod.splits sum.splits)

lemma exportToCSV_returns_blob:
  assumes "data opts = Some (row0 # rest)"
    and "raised (exportToCSV num2str proto opts e s) = None"
  shows "blob_content (effects (exportToCSV num2str proto opts e s)) \<noteq> None"
  using assms
  by (auto simp: exportToCSV_def Let_def blob_content_invoke split: prod.splits sum.splits
      if_splits)

lemma csvRow_of_pure:
  assumes "\<forall>k\<in>set keys. \<forall>raw t. call_formatter proto fmts k raw t = (Inr (g k raw), t)"
  shows "csvRow_of num2str proto fmts quoteVals delim keys r s =
     (Inr (join (map (\<lambda>k. escapeCSVValue num2str
                        (nullish_coalesce (g k (get_prop proto r k)) (get_prop proto r k))
                        quoteVals delim) keys) delim), s)"
proof -
  have "array_map (cell_of num2str proto fmts quoteVals delim r) keys s =
      (Inr (map (\<lambda>k. escapeCSVValue num2str
                   (nullish_coalesce (g k (get_prop proto r k)) (get_prop proto r k))
                   quoteVals delim) keys), s)"
    using assms by (intro array_map_pure) (simp add: cell_of_pure)
  then show ?thesis by (simp add: csvRow_of_def)
qed

lemma csvRows_of_pure:
  assumes "\<forall>k\<in>set keys. \<forall>raw t. call_formatter proto fmts k raw t = (Inr (g k raw), t)"
  shows "csvRows_of num2str proto fmts quoteVals delim keys rows s =
     (Inr (map (\<lambda>r. join (map (\<lambda>k. escapeCSVValue num2str
                        (nullish_coalesce (g k (get_prop proto r k)) (get_prop proto r k))
                        quoteVals delim) keys) delim) rows), s)"
  unfolding csvRows_of_def
  by (intro array_map_pure) (simp add: csvRow_of_pure [OF assms])

lemma exportToCSV_pure_blob:
  assumes "data opts = Some (row0 # rest)"
    and "\<forall>k\<in>set (keys_of (headers opts) row0). \<forall>raw t.
           call_formatter proto (dflt Map.empty (formatters opts)) k raw t = (Inr (g k raw), t)"
  shows "blob_content (effects (exportToCSV num2str proto opts e s)) =
     (if raised (invoke OnExportStart (onExportStart opts) s) \<noteq> None then None
      else
        Some ((if dflt False (includeBOM opts) then [BOM] else []) @
          join
            (map (\<lambda>cells. join cells (dflt (u16 '','') (delimiter opts)))
               (dflt [] (prependRows opts)) @
             (if dflt True (includeHeader opts)
              then [join (headerRow_of (dflt False (useKeysAsHeader opts)) (labels opts)
                            (keys_of (headers opts) row0))
                      (dflt (u16 '','') (delimiter opts))]
              else []) @
             map (\<lambda>r. join (map (\<lambda>k. escapeCSVValue num2str
                        (nullish_coalesce (g k (get_prop proto r k)) (get_prop proto r k))
                        (dflt True (quoteValues opts)) (dflt (u16 '','') (delimiter opts)))
                        (keys_of (headers opts) row0)) (dflt (u16 '','') (delimiter opts)))
               (row0 # rest) @
             map (\<lambda>cells. join cells (dflt (u16 '','') (delimiter opts)))
               (dflt [] (appendRows opts)))
            (newline_string (dflt LF (newline opts)))))"
  by (simp only: exportToCSV_blob_content [OF assms(1)] csvRows_of_pure [OF assms(2)]
      contentRows_of_def prod.case sum.case)

lemma sample_export_builds_blob:
  assumes "data opts = Some sampleData" and "headers opts = None"
    and "dflt Map.empty (formatters opts) (u16 ''name'') = None"
    and "dflt Map.empty (formatters opts) (u16 ''age'') = None"
    and "dflt Map.empty (formatters opts) (u16 ''email'') = None"
    and "onExportStart opts = None"
  shows "blob_content (effects (exportToCSV int_string test_prototype opts e s)) \<noteq> None"
proof -
  have d: "data opts = Some (hd sampleData # tl sampleData)"
    using assms(1) by (simp add: sampleData_def)
  have p: "\<forall>k\<in>set (keys_of (headers opts) (hd sampleData)). \<forall>raw t.
     call_formatter test_prototype (dflt Map.empty (formatters opts)) k raw t =
       (Inr ((\<lambda>k raw. JUndefined) k raw), t)"
    using assms(2-5)
    by (simp add: keys_of_def Object_keys_def sampleData_def call_formatter_def
        test_prototype_def u16_def)
  show ?thesis
    unfolding exportToCSV_pure_blob [OF d p] using assms(6) by (simp add: invoke_def)
qed

text \<open>
  C2. A call with an absent or empty record collection does nothing: no callback is
  invoked, no text is built and handed to a \<open>Blob\<close>, none of the download steps is
  reached, nothing is thrown and the store is left as it was.
\<close>

theorem exportToCSV_empty_noop:
  assumes "data opts = None \<or> data opts = Some []"
  shows "exportToCSV num2str proto opts e s = \<lparr>effects = [], raised = None, store = s\<rparr>"
  using assms by (auto simp: exportToCSV_def)

theorem exportToCSV_empty_noop_witness:
  "exportToCSV int_string test_prototype
     ((data_only (Some []))
        \<lparr>onExportStart := Some (\<lambda>s. (None, Suc s)),
         onExportComplete := Some (\<lambda>s. (None, Suc s))\<rparr>)
     test_env (0 :: nat) = \<lparr>effects = [], raised = None, store = 0\<rparr> \<and>
   exportToCSV int_string test_prototype
     ((data_only None)
        \<lparr>onExportStart := Some (\<lambda>s. (None, Suc s)),
         onExportComplete := Some (\<lambda>s. (None, Suc s))\<rparr>)
     test_env (0 :: nat) = \<lparr>effects = [], raised = None, store = 0\<rparr>"
proof -
  let ?o1 = "(data_only (Some []))
        \<lparr>onExportStart := Some (\<lambda>s. (None, Suc s)),
         onExportComplete := Some (\<lambda>s. (None, Suc s))\<rparr> :: (int, nat) CSVExportOptions"
  let ?o2 = "(data_only None)
        \<lparr>onExportStart := Some (\<lambda>s. (None, Suc s)),
         onExportComplete := Some (\<lambda>s. (None, Suc s))\<rparr> :: (int, nat) CSVExportOptions"
  have h1: "data ?o1 = None \<or> data ?o1 = Some []" by (simp add: data_only_def)
  have h2: "data ?o2 = None \<or> data ?o2 = Some []" by (simp add: data_only_def)
  show ?thesis
    using exportToCSV_empty_noop [OF h1, of int_string test_prototype test_env 0]
      exportToCSV_empty_noop [OF h2, of int_string test_prototype test_env 0] by simp
qed


text \<open>
  C7, as stated, fails: a label list shorter than the header list is used as it is.
\<close>

theorem short_labels_counterexample:
  "length [u16 ''Full Name''] < length [u16 ''name'', u16 ''age''] \<and>
   headerRow_of False (Some [u16 ''Full Name''])
     (keys_of (Some [u16 ''name'', u16 ''age'']) (hd sampleData)) = [u16 ''Full Name''] \<and>
   headerRow_of False (Some [u16 ''Full Name''])
     (keys_of (Some [u16 ''name'', u16 ''age'']) (hd sampleData)) \<noteq>
     map String_key [u16 ''name'', u16 ''age'']"
  by (simp add: headerRow_of_def keys_of_def)

text \<open>
  C7, amended. With \<open>useKeysAsHeader\<close> disabled, a supplied label list is the header row
  as it is, also when it is shorter than the header list (the header row then differs
  from the stringified headers); the stringified headers are used only when no label
  list is supplied.
\<close>

theorem short_labels_used_as_is:
  assumes "length lbls < length keys"
  shows "headerRow_of False (Some lbls) keys = lbls \<and>
         headerRow_of False (Some lbls) keys \<noteq> map String_key keys \<and>
         headerRow_of False None keys = map String_key keys"
  using assms by (auto simp: headerRow_of_def)

theorem short_labels_used_as_is_witness:
  "length [u16 ''Full Name''] < length [u16 ''name'', u16 ''age''] \<and>
   headerRow_of False (Some [u16 ''Full Name'']) [u16 ''name'', u16 ''age''] = [u16 ''Full Name'']"
proof -
  have h: "length [u16 ''Full Name''] < length [u16 ''name'', u16 ''age'']" by simp
  show ?thesis using h short_labels_used_as_is [OF h] by simp
qed




text \<open>A column named after another member of \<open>Object.prototype\<close>: with no formatter
  registered, a null \<open>constructor\<close> field is formatted by \<open>Object\<close>.\<close>

lemma constructor_column_example:
  "blob_content
     (effects (exportToCSV int_string test_prototype
        (data_only (Some [[(u16 ''constructor'', JNull)]])) test_env ())) =
     Some (u16 ''constructor'' @ u16 [CHR 0x0A] @ u16 ''\"[object Object]\"'')"
  by (simp add: exportToCSV_def Let_def data_only_def invoke_def keys_of_def Object_keys_def
      headerRow_of_def String_key_def csvRows_of_def csvRow_of_def cell_of_def formatted_of_def
      call_formatter_def get_prop_def nullish_coalesce_def contentRows_of_def
      test_prototype_def escapeCSVValue_def u16_def DQUOTE_def NEWLINE_def)

section \<open>The timestamped filename\<close>

lemma replace_colons_take_19:
  assumes "0 \<le> year d" and "year d \<le> 9999"
  shows "replace_colons (take 19 (toISOString d)) = timestamp_token d"
proof -
  have "replace_colons (take 19 (toISOString d)) = replace_colons (iso_seconds d)"
    using assms by (simp only: take_19_toISOString)
  also have "\<dots> = timestamp_token d"
    using assms
    by (simp only: iso_seconds_def timestamp_token_def year_string_def replace_colons_append
        replace_colons_pad replace_colons_lits if_True simp_thms)
  finally show ?thesis .
qed

text \<open>
  C5, as stated, fails: the claim is made for every instant, and from the year 10000 on
  the ISO stamp starts with a sign and a six-digit year, so that its first 19 code units
  end in the minutes: the file is named \<open>test-+010000-01-01T00-00.csv\<close>, and the stamp
  truncated to seconds would give \<open>test-+010000-01-01T00-00-00.csv\<close>.
\<close>

theorem timestamp_year_10000_counterexample:
  "download_name
     (effects (exportToCSV int_string test_prototype
        ((data_only (Some sampleData) :: (int, unit) CSVExportOptions)
           \<lparr>filename := Some (u16 ''test.csv''), addTimestamp := Some True\<rparr>)
        (test_env \<lparr>now := year_10000\<rparr>) ())) =
     Some (u16 ''test-+010000-01-01T00-00.csv'') \<and>
   u16 ''test'' @ u16 ''-'' @ timestamp_token year_10000 @ u16 ''.csv'' =
     u16 ''test-+010000-01-01T00-00-00.csv'' \<and>
   u16 ''test-+010000-01-01T00-00.csv'' \<noteq> u16 ''test-+010000-01-01T00-00-00.csv''"
proof -
  let ?opts = "(data_only (Some sampleData) :: (int, unit) CSVExportOptions)
           \<lparr>filename := Some (u16 ''test.csv''), addTimestamp := Some True\<rparr>"
  have d: "data ?opts = Some (hd sampleData # tl sampleData)"
    by (simp add: data_only_def sampleData_def)
  have b: "blob_content (effects (exportToCSV int_string test_prototype ?opts
      (test_env \<lparr>now := year_10000\<rparr>) ())) \<noteq> None"
    by (rule sample_export_builds_blob) (simp_all add: data_only_def)
  have iso: "toISOString year_10000 = u16 ''+010000-01-01T00:00:00.000Z''"
    by (simp add: year_10000_def toISOString_def year_string_def digit_def pad_numerals u16_def)
  have tok: "timestamp_token year_10000 = u16 ''+010000-01-01T00-00-00''"
    by (simp add: year_10000_def timestamp_token_def year_string_def digit_def pad_numerals
        u16_def)
  have rm: "remove_csv_suffix (u16 ''test.csv'') = u16 ''test''"
    by (simp add: remove_csv_suffix_def endsWith_def u16_def)
  have f: "finalFilename_of True (u16 ''test.csv'') year_10000 = u16 ''test-+010000-01-01T00-00.csv''"
    unfolding finalFilename_of_def iso rm
    by (simp add: u16_def replace_colons_def COLON_def HYPHEN_def)
  have g: "u16 ''test'' @ u16 ''-'' @ timestamp_token year_10000 @ u16 ''.csv'' =
     u16 ''test-+010000-01-01T00-00-00.csv''"
    unfolding tok by (simp add: u16_def)
  have h: "u16 ''test-+010000-01-01T00-00.csv'' \<noteq> u16 ''test-+010000-01-01T00-00-00.csv''"
    by (simp add: u16_def)
  have "download_name (effects (exportToCSV int_string test_prototype ?opts
      (test_env \<lparr>now := year_10000\<rparr>) ())) =
      Some (finalFilename_of True (u16 ''test.csv'') year_10000)"
    using b by (simp add: exportToCSV_download_name [OF d])
  then show ?thesis using g h by (simp add: f)
qed

text \<open>
  C5, amended. For every filename and every instant whose UTC year is in 0 .. 9999, when
  timestamping is enabled the name of the download, set whenever the call gets to build
  its \<open>Blob\<close> (as every call that returns normally does), is the configured filename
  without its trailing \<open>.csv\<close> (the filename itself when it has none), then a hyphen, the
  instant's ISO stamp truncated to seconds with colons replaced by hyphens, and \<open>.csv\<close>;
  \<open>test.csv\<close> at 2023-12-25T10:30:45.123Z gives \<open>test-2023-12-25T10-30-45.csv\<close>.
\<close>

theorem timestamped_filename:
  assumes "data opts = Some (row0 # rest)" and "addTimestamp opts = Some True"
    and "0 \<le> year (now e)" and "year (now e) \<le> 9999"
  shows
   "let out = exportToCSV num2str proto opts e s;
        fname = dflt (u16 ''export.csv'') (filename opts)
    in (fname = base @ u16 ''.csv'' \<longrightarrow>
          download_name (effects out) =
            (if blob_content (effects out) = None then None
             else Some (base @ u16 ''-'' @ timestamp_token (now e) @ u16 ''.csv''))) \<and>
       ((\<forall>b. fname \<noteq> b @ u16 ''.csv'') \<longrightarrow>
          download_name (effects out) =
            (if blob_content (effects out) = None then None
             else Some (fname @ u16 ''-'' @ timestamp_token (now e) @ u16 ''.csv''))) \<and>
       (raised out = None \<longrightarrow> blob_content (effects out) \<noteq> None)"
proof -
  let ?f = "dflt (u16 ''export.csv'') (filename opts)"
  let ?out = "exportToCSV num2str proto opts e s"
  have "download_name (effects ?out) =
      (if blob_content (effects ?out) = None then None
       else Some (finalFilename_of True ?f (now e)))"
    using assms(2) by (simp add: exportToCSV_download_name [OF assms(1)])
  then have dn: "download_name (effects ?out) =
      (if blob_content (effects ?out) = None then None
       else Some (remove_csv_suffix ?f @ u16 ''-'' @ timestamp_token (now e) @ u16 ''.csv''))"
    by (simp only: finalFilename_of_def if_True replace_colons_take_19 [OF assms(3,4)])
  have a: "?f = base @ u16 ''.csv'' \<Longrightarrow> remove_csv_suffix ?f = base"
    by (simp only: remove_csv_suffix_present)
  have b: "\<forall>b. ?f \<noteq> b @ u16 ''.csv'' \<Longrightarrow> remove_csv_suffix ?f = ?f"
    using remove_csv_suffix_absent [of ?f] by blast
  have c: "raised ?out = None \<Longrightarrow> blob_content (effects ?out) \<noteq> None"
    using exportToCSV_returns_blob [OF assms(1)] by blast
  show ?thesis
    unfolding Let_def
  proof (intro conjI impI)
    assume "?f = base @ u16 ''.csv''"
    then show "download_name (effects ?out) =
        (if blob_content (effects ?out) = None then None
         else Some (base @ u16 ''-'' @ timestamp_token (now e) @ u16 ''.csv''))"
      using dn a by simp
  next
    assume "\<forall>b. ?f \<noteq> b @ u16 ''.csv''"
    then show "download_name (effects ?out) =
        (if blob_content (effects ?out) = None then None
         else Some (?f @ u16 ''-'' @ timestamp_token (now e) @ u16 ''.csv''))"
      using dn b by simp
  next
    assume "raised ?out = None"
    then show "blob_content (effects ?out) \<noteq> None" by (rule c)
  qed
qed

theorem timestamped_filename_witness:
  "data ((data_only (Some sampleData) :: (int, unit) CSVExportOptions)
           \<lparr>filename := Some (u16 ''test.csv''), addTimestamp := Some True\<rparr>) =
     Some (hd sampleData # tl sampleData) \<and>
   0 \<le> year (now test_env) \<and> year (now test_env) \<le> 9999 \<and>
   download_name
     (effects (exportToCSV int_string test_prototype
        ((data_only (Some sampleData) :: (int, unit) CSVExportOptions)
           \<lparr>filename := Some (u16 ''test.csv''), addTimestamp := Some True\<rparr>)
        test_env ())) =
     Some (u16 ''test-2023-12-25T10-30-45.csv'')"
proof -
  let ?opts = "(data_only (Some sampleData) :: (int, unit) CSVExportOptions)
           \<lparr>filename := Some (u16 ''test.csv''), addTimestamp := Some True\<rparr>"
  let ?out = "exportToCSV int_string test_prototype ?opts test_env ()"
  have h1: "data ?opts = Some (hd sampleData # tl sampleData)"
    by (simp add: data_only_def sampleData_def)
  have h2: "addTimestamp ?opts = Some True" by simp
  have h3: "0 \<le> year (now test_env)" and h4: "year (now test_env) \<le> 9999"
    by (simp_all add: test_env_def test_clock_def)
  have h5: "dflt (u16 ''export.csv'') (filename ?opts) = u16 ''test'' @ u16 ''.csv''"
    by (simp add: u16_def)
  have b: "blob_content (effects ?out) \<noteq> None"
    by (rule sample_export_builds_blob) (simp_all add: data_only_def)
  have tok: "timestamp_token (now test_env) = u16 ''2023-12-25T10-30-45''"
    by (simp add: test_env_def test_clock_def timestamp_token_def year_string_def
        pad_numerals digit_def u16_def)
  have "dflt (u16 ''export.csv'') (filename ?opts) = u16 ''test'' @ u16 ''.csv'' \<longrightarrow>
      download_name (effects ?out) =
        (if blob_content (effects ?out) = None then None
         else Some (u16 ''test'' @ u16 ''-'' @ timestamp_token (now test_env) @ u16 ''.csv''))"
    using timestamped_filename [OF h1 h2 h3 h4, where base = "u16 ''test''"
        and num2str = int_string and proto = test_prototype and s = "()"]
    unfolding Let_def by (elim conjE)
  with h5 b have "download_name (effects ?out) =
      Some (u16 ''test'' @ u16 ''-'' @ timestamp_token (now test_env) @ u16 ''.csv'')"
    by simp
  then have "download_name (effects ?out) = Some (u16 ''test-2023-12-25T10-30-45.csv'')"
    unfolding tok by (simp add: u16_def)
  then show ?thesis using h1 h3 h4 by blast
qed

section \<open>Determinism\<close>




end
